theory Spec2Isabelle
  imports Main "HOL-Library.Word" "HOL-Library.Signed_Division"
begin

unbundle bit_operations_syntax

section \<open>Bytes, exceptions and 16-bit samples\<close>

text \<open>
  The audio code of \<^verbatim>\<open>text_to_speech_ibm.py\<close> works on Python \<^verbatim>\<open>bytes\<close> objects holding
  16-bit signed little-endian PCM. A byte is an 8-bit word, a buffer a list of bytes,
  a Python integer an \<^typ>\<open>int\<close>. Every exception the code can raise is a value of
  \<open>error\<close>; a computation that may raise returns \<open>error + 'a\<close>, with \<open>Inl\<close> the exception.
\<close>

type_synonym byte = "8 word"
type_synonym bytes = "byte list"

datatype error = WaveError | EOFError | StructError | RuntimeError | ValueError
  | ZeroDivisionError | OverflowError | ImportError | ApiException | OtherException

definition in_int16 :: "int \<Rightarrow> bool" where
  "in_int16 v = (- 32768 \<le> v \<and> v \<le> 32767)"

text \<open>The two bytes of a 16-bit two's-complement value, low byte first.\<close>

definition int16_bytes :: "int \<Rightarrow> bytes" where
  "int16_bytes v = [word_of_int v, word_of_int (v div 256)]"

text \<open>\<^verbatim>\<open>struct.pack('<h', v)\<close>: raises \<^verbatim>\<open>struct.error\<close> outside the 16-bit range.\<close>

definition struct_pack_h :: "int \<Rightarrow> error + bytes" where
  "struct_pack_h v = (if in_int16 v then Inr (int16_bytes v) else Inl StructError)"

text \<open>\<^verbatim>\<open>struct.unpack('<h', b)[0]\<close>: raises \<^verbatim>\<open>struct.error\<close> unless \<open>b\<close> has two bytes.\<close>

definition struct_unpack_h :: "bytes \<Rightarrow> error + int" where
  "struct_unpack_h b =
     (case b of
        [lo, hi] \<Rightarrow>
          (let u = uint lo + 256 * uint hi
           in Inr (if u \<ge> 32768 then u - 65536 else u))
      | _ \<Rightarrow> Inl StructError)"

text \<open>Python slices \<^verbatim>\<open>xs[a:b]\<close> and slice assignment \<^verbatim>\<open>xs[a:b] = v\<close>, for \<open>a \<le> b\<close>.\<close>

definition py_slice :: "'a list \<Rightarrow> nat \<Rightarrow> nat \<Rightarrow> 'a list" where
  "py_slice xs a b = take (b - a) (drop a xs)"

definition py_slice_assign :: "'a list \<Rightarrow> nat \<Rightarrow> nat \<Rightarrow> 'a list \<Rightarrow> 'a list" where
  "py_slice_assign xs a b v = take a xs @ v @ drop b xs"

text \<open>\<^verbatim>\<open>range(0, n, step)\<close>.\<close>

definition py_range_step :: "nat \<Rightarrow> nat \<Rightarrow> nat list" where
  "py_range_step n step = map (\<lambda>k. k * step) [0..<(n + step - 1) div step]"

text \<open>A \<^verbatim>\<open>for\<close> loop whose body may raise: the first exception ends the loop.\<close>

fun for_loop :: "'i list \<Rightarrow> ('i \<Rightarrow> 's \<Rightarrow> error + 's) \<Rightarrow> 's \<Rightarrow> error + 's" where
  "for_loop [] body s = Inr s"
| "for_loop (i # is) body s =
     (case body i s of Inl e \<Rightarrow> Inl e | Inr s' \<Rightarrow> for_loop is body s')"

section \<open>Stereo to mono\<close>

text \<open>
  The body of the downmix loop, lines 114--124 of \<^verbatim>\<open>extract_pcm_from_wav\<close> (and again
  lines 516--526 of \<^verbatim>\<open>synthesize_speech\<close>): at byte offset \<open>i\<close> of the stereo data, when a
  whole frame is left, unpack both channels, average them with Python's \<^verbatim>\<open>//\<close> and store
  the packed result at byte offset \<open>i // 2\<close> of the mono buffer.
\<close>

definition mix_frame :: "bytes \<Rightarrow> nat \<Rightarrow> bytes \<Rightarrow> error + bytes" where
  "mix_frame pcm_data i mono_pcm =
     (if i + 3 < length pcm_data then
        (case struct_unpack_h (py_slice pcm_data i (i + 2)) of
           Inl e \<Rightarrow> Inl e
         | Inr left_val \<Rightarrow>
        (case struct_unpack_h (py_slice pcm_data (i + 2) (i + 4)) of
           Inl e \<Rightarrow> Inl e
         | Inr right_val \<Rightarrow>
        (case struct_pack_h ((left_val + right_val) div 2) of
           Inl e \<Rightarrow> Inl e
         | Inr mixed_bytes \<Rightarrow>
             Inr (py_slice_assign mono_pcm (i div 2) (i div 2 + 2) mixed_bytes))))
      else Inr mono_pcm)"

text \<open>
  The loop itself: \<open>buf_len\<close> is the length of the zero-filled \<^verbatim>\<open>bytearray\<close> the source
  allocates (\<^verbatim>\<open>n_frames * 2\<close> in \<^verbatim>\<open>extract_pcm_from_wav\<close>, \<^verbatim>\<open>len(stereo_pcm) // 2\<close> in
  \<^verbatim>\<open>synthesize_speech\<close>).
\<close>

definition stereo_to_mono :: "nat \<Rightarrow> bytes \<Rightarrow> error + bytes" where
  "stereo_to_mono buf_len pcm_data =
     for_loop (py_range_step (length pcm_data) 4) (mix_frame pcm_data) (replicate buf_len 0)"

text \<open>The interleaved bytes of a list of stereo frames (left, right).\<close>

definition frame_bytes :: "int \<times> int \<Rightarrow> bytes" where
  "frame_bytes f = int16_bytes (fst f) @ int16_bytes (snd f)"

definition stereo_bytes :: "(int \<times> int) list \<Rightarrow> bytes" where
  "stereo_bytes frames = concat (map frame_bytes frames)"

definition mono_bytes :: "int list \<Rightarrow> bytes" where
  "mono_bytes samples = concat (map int16_bytes samples)"

text \<open>The mean the source computes, and the mean with division truncating towards zero.\<close>

definition floor_mean :: "int \<times> int \<Rightarrow> int" where
  "floor_mean f = (fst f + snd f) div 2"

definition trunc_mean :: "int \<times> int \<Rightarrow> int" where
  "trunc_mean f = (fst f + snd f) sdiv 2"

section \<open>Lemmas on samples\<close>

lemma int16_split:
  assumes "in_int16 v"
  shows "(let u = uint (word_of_int v :: byte) + 256 * uint (word_of_int (v div 256) :: byte)
          in if u \<ge> 32768 then u - 65536 else u) = v"
proof -
  from assms have r: "- 32768 \<le> v \<and> v \<le> 32767" by (simp add: in_int16_def)
  have m: "v mod 256 + 256 * (v div 256 mod 256) = v mod 65536"
    using zmod_zmult2_eq [of 256 v 256] by simp
  have u: "uint (word_of_int v :: byte) + 256 * uint (word_of_int (v div 256) :: byte) = v mod 65536"
    using m by (simp add: uint_word_of_int take_bit_eq_mod)
  have c: "(if v mod 65536 \<ge> 32768 then v mod 65536 - 65536 else v mod 65536) = v"
  proof (cases "v < 0")
    case True
    then have "(v + 65536) mod 65536 = v + 65536"
      using r by (intro mod_pos_pos_trivial) simp_all
    then have "v mod 65536 = v + 65536" by simp
    then show ?thesis using r True by simp
  next
    case False
    then have "v mod 65536 = v"
      using r by (intro mod_pos_pos_trivial) simp_all
    then show ?thesis using r by simp
  qed
  show ?thesis by (simp only: Let_def u c)
qed

lemma unpack_pack: "in_int16 v \<Longrightarrow> struct_unpack_h (int16_bytes v) = Inr v"
  using int16_split [of v] by (simp add: struct_unpack_h_def int16_bytes_def Let_def)

section \<open>The downmix loop\<close>

lemma for_loop_append:
  "for_loop (xs @ ys) body s =
     (case for_loop xs body s of Inl e \<Rightarrow> Inl e | Inr s' \<Rightarrow> for_loop ys body s')"
  by (induction xs arbitrary: s) (auto split: sum.splits)

lemma length_int16_bytes [simp]: "length (int16_bytes v) = 2"
  by (simp add: int16_bytes_def)

lemma length_frame_bytes [simp]: "length (frame_bytes f) = 4"
  by (simp add: frame_bytes_def)

lemma length_stereo_bytes [simp]: "length (stereo_bytes frames) = 4 * length frames"
  by (induction frames) (simp_all add: stereo_bytes_def)

lemma length_mono_bytes [simp]: "length (mono_bytes xs) = 2 * length xs"
  by (induction xs) (simp_all add: mono_bytes_def)

lemma drop_stereo_bytes: "drop (4 * j) (stereo_bytes frames) = stereo_bytes (drop j frames)"
proof (induction frames arbitrary: j)
  case Nil
  then show ?case by (simp add: stereo_bytes_def)
next
  case (Cons f frames)
  show ?case
  proof (cases j)
    case 0
    then show ?thesis by simp
  next
    case (Suc k)
    have "drop (4 * Suc k) (stereo_bytes (f # frames)) = drop (4 * k) (stereo_bytes frames)"
      by (simp add: stereo_bytes_def)
    then show ?thesis using Cons.IH [of k] Suc by simp
  qed
qed

lemma range_stereo: "py_range_step (4 * n) 4 = map (\<lambda>k. k * 4) [0..<n]"
proof -
  have "(4 * n + 4 - 1) div 4 = n" by simp
  then show ?thesis by (simp add: py_range_step_def)
qed

lemma mix_frame_at:
  assumes "j < length frames" and "in_int16 (fst (frames ! j))" and "in_int16 (snd (frames ! j))"
  shows "mix_frame (stereo_bytes frames) (j * 4) buf =
     Inr (py_slice_assign buf (2 * j) (2 * j + 2) (int16_bytes (floor_mean (frames ! j))))"
proof -
  obtain f rest where d: "drop j frames = f # rest" and f: "f = frames ! j"
    using assms(1) by (metis Cons_nth_drop_Suc)
  have dr: "drop (j * 4) (stereo_bytes frames) = frame_bytes f @ stereo_bytes rest"
    using drop_stereo_bytes [of j frames] d by (simp add: stereo_bytes_def mult.commute)
  have l: "py_slice (stereo_bytes frames) (j * 4) (j * 4 + 2) = int16_bytes (fst f)"
    by (simp add: py_slice_def dr frame_bytes_def)
  have "drop (j * 4 + 2) (stereo_bytes frames) = drop 2 (drop (j * 4) (stereo_bytes frames))"
    by (simp add: add.commute)
  then have r: "py_slice (stereo_bytes frames) (j * 4 + 2) (j * 4 + 4) = int16_bytes (snd f)"
    by (simp add: py_slice_def dr frame_bytes_def)
  have m: "in_int16 (floor_mean f)"
    using assms(2,3) f by (simp add: in_int16_def floor_mean_def) linarith
  have i: "j * 4 + 3 < length (stereo_bytes frames)" using assms(1) by simp
  have h: "j * 4 div 2 = 2 * j" by simp
  show ?thesis
    unfolding mix_frame_def
    using i l r m assms(2,3) f
    by (simp add: unpack_pack struct_pack_h_def floor_mean_def h del: length_stereo_bytes)
qed


lemma mono_bytes_snoc: "mono_bytes (xs @ [x]) = mono_bytes xs @ int16_bytes x"
  by (simp add: mono_bytes_def)

lemma downmix_loop:
  assumes "\<forall>f \<in> set frames. in_int16 (fst f) \<and> in_int16 (snd f)" and "j \<le> length frames"
  shows "for_loop (map (\<lambda>k. k * 4) [0..<j]) (mix_frame (stereo_bytes frames))
            (replicate (2 * length frames) 0) =
         Inr (mono_bytes (map floor_mean (take j frames)) @ replicate (2 * (length frames - j)) 0)"
  using assms(2)
proof (induction j)
  case 0
  then show ?case by (simp add: mono_bytes_def)
next
  case (Suc j)
  then have j: "j < length frames" by simp
  let ?A = "mono_bytes (map floor_mean (take j frames))"
  have la: "length ?A = 2 * j" using j by simp
  have r: "in_int16 (fst (frames ! j))" "in_int16 (snd (frames ! j))"
    using assms(1) j by simp_all
  have rep: "replicate (2 * (length frames - j)) (0::byte) =
             [0, 0] @ replicate (2 * (length frames - Suc j)) 0"
  proof -
    have "2 * (length frames - j) = Suc (Suc (2 * (length frames - Suc j)))" using j by simp
    then show ?thesis by simp
  qed
  have sa: "py_slice_assign (?A @ replicate (2 * (length frames - j)) 0) (2 * j) (2 * j + 2)
              (int16_bytes (floor_mean (frames ! j))) =
            ?A @ int16_bytes (floor_mean (frames ! j)) @ replicate (2 * (length frames - Suc j)) 0"
    unfolding py_slice_assign_def rep using la by simp
  have tk: "mono_bytes (map floor_mean (take (Suc j) frames)) =
            ?A @ int16_bytes (floor_mean (frames ! j))"
    using j by (simp add: take_Suc_conv_app_nth mono_bytes_snoc)
  have "for_loop (map (\<lambda>k. k * 4) [0..<Suc j]) (mix_frame (stereo_bytes frames))
            (replicate (2 * length frames) 0) =
        mix_frame (stereo_bytes frames) (j * 4) (?A @ replicate (2 * (length frames - j)) 0)"
    using Suc.IH j by (simp add: for_loop_append split: sum.splits)
  also have "\<dots> = Inr (?A @ int16_bytes (floor_mean (frames ! j)) @
                        replicate (2 * (length frames - Suc j)) 0)"
    using mix_frame_at [OF j r] sa by simp
  finally show ?case using tk by simp
qed

lemma floor_mean_in_int16:
  "in_int16 (fst f) \<Longrightarrow> in_int16 (snd f) \<Longrightarrow> in_int16 (floor_mean f)"
  by (simp add: in_int16_def floor_mean_def) linarith

text \<open>
  Claim C5 (as amended). For every stereo 16-bit buffer, the stereo branch of
  \<^verbatim>\<open>extract_pcm_from_wav\<close> produces one mono sample per frame, equal to the arithmetic mean
  of the left and right samples computed with Python's floor division \<^verbatim>\<open>//\<close> (rounding
  towards minus infinity, the arithmetic right shift of the two's-complement sum); no
  \<^verbatim>\<open>struct.pack\<close> fails, because every mean is a representable 16-bit value. The frames
  \<open>[(100, 200), (300, 400)]\<close> are mapped to \<open>[150, 350]\<close>.
\<close>

theorem downmix_floor_mean:
  assumes "\<forall>f \<in> set frames. in_int16 (fst f) \<and> in_int16 (snd f)"
  shows "stereo_to_mono (2 * length frames) (stereo_bytes frames) =
           Inr (mono_bytes (map floor_mean frames)) \<and>
         (\<forall>f \<in> set frames. in_int16 (floor_mean f))"
proof
  show "stereo_to_mono (2 * length frames) (stereo_bytes frames) =
           Inr (mono_bytes (map floor_mean frames))"
    using downmix_loop [OF assms, of "length frames"]
    by (simp add: stereo_to_mono_def range_stereo)
  show "\<forall>f \<in> set frames. in_int16 (floor_mean f)"
    using assms floor_mean_in_int16 by blast
qed

theorem downmix_floor_mean_witness:
  "stereo_to_mono 4 (stereo_bytes [(100, 200), (300, 400)]) = Inr (mono_bytes [150, 350]) \<and>
   in_int16 150 \<and> in_int16 350"
  using downmix_floor_mean [of "[(100, 200), (300, 400)]"]
  by (simp add: in_int16_def floor_mean_def)

text \<open>
  C5 as stated, with a division that truncates towards zero, fails on the frame
  \<open>(-1, 0)\<close>: the code stores \<open>-1\<close>, the truncated mean is \<open>0\<close>.
\<close>

theorem downmix_truncating_counterexample:
  "stereo_to_mono 2 (stereo_bytes [(- 1, 0)]) = Inr (mono_bytes [- 1]) \<and>
   trunc_mean (- 1, 0) = 0 \<and>
   mono_bytes [- 1] \<noteq> mono_bytes [trunc_mean (- 1, 0)]"
  by code_simp

end
